theory Spec2Isabelle
  imports Main "HOL-Library.Char_ord" "HOL-Library.List_Lexorder" "HOL-Library.Word"
begin

section \<open>JavaScript values, strings and objects\<close>

text \<open>
  The connector class \<open>SecureSupabaseConnector\<close> works on form records: plain objects
  whose values are strings, numbers, booleans or \<open>null\<close>. A string is a list of
  characters (code units below 256); a number is modelled for integer values, printed in
  decimal as \<open>Number.prototype.toString\<close> prints the integers below \<open>10^21\<close> in magnitude. An object is the list of its own
  properties in enumeration order (the order of \<open>Object.keys\<close> and
  \<open>Object.entries\<close>); its keys are distinct.
\<close>

datatype jsval = JStr string | JNum int | JBool bool | JNull

type_synonym js_object = "(string \<times> jsval) list"

definition dq :: string where
  "dq = [CHR 0x22]"

definition bs :: string where
  "bs = [CHR 0x5C]"

text \<open>Truthiness, as \<open>if (value)\<close> and \<open>!value\<close> read it.\<close>

fun truthy :: "jsval \<Rightarrow> bool" where
  "truthy (JStr s) = (s \<noteq> [])"
| "truthy (JNum n) = (n \<noteq> 0)"
| "truthy (JBool b) = b"
| "truthy JNull = False"

fun digit_char :: "nat \<Rightarrow> char" where
  "digit_char n = (''0123456789abcdef'' ! (n mod 16))"

fun nat_to_string :: "nat \<Rightarrow> nat \<Rightarrow> string" where
  "nat_to_string radix n =
     (if radix < 2 \<or> n < radix then [digit_char n]
      else nat_to_string radix (n div radix) @ [digit_char (n mod radix)])"

definition int_to_string :: "int \<Rightarrow> string" where
  "int_to_string i = (if i < 0 then ''-'' @ nat_to_string 10 (nat (- i)) else nat_to_string 10 (nat i))"

text \<open>\<open>value.toString()\<close> on the values of a record.\<close>

fun toString :: "jsval \<Rightarrow> string" where
  "toString (JStr s) = s"
| "toString (JNum n) = int_to_string n"
| "toString (JBool b) = (if b then ''true'' else ''false'')"
| "toString JNull = ''null''"

text \<open>
  \<open>String.prototype.toLowerCase\<close> on code units below 256: the ASCII capitals and the
  Latin-1 capitals (U+00C0 to U+00DE without the multiplication sign U+00D7) move up by 32.
\<close>

definition lower_char :: "char \<Rightarrow> char" where
  "lower_char c =
     (let n = (of_char c :: nat) in
      if (65 \<le> n \<and> n \<le> 90) \<or> (192 \<le> n \<and> n \<le> 222 \<and> n \<noteq> 215)
      then char_of (n + 32) else c)"

definition toLowerCase :: "string \<Rightarrow> string" where
  "toLowerCase s = map lower_char s"

text \<open>
  Property assignment \<open>obj[key] = value\<close>: an existing property keeps its place and
  takes the new value, a new property goes to the end.
\<close>

fun obj_set :: "js_object \<Rightarrow> string \<Rightarrow> jsval \<Rightarrow> js_object" where
  "obj_set [] k v = [(k, v)]"
| "obj_set ((k', v') # ps) k v = (if k' = k then (k, v) # ps else (k', v') # obj_set ps k v)"

section \<open>JSON.stringify\<close>

text \<open>
  \<open>QuoteJSONString\<close>: the double quote and the backslash are escaped, the control
  characters below 0x20 get their short escape or \<open>\u00XX\<close>.
\<close>

definition json_escape_char :: "char \<Rightarrow> string" where
  "json_escape_char c =
     (if c = CHR 0x22 then bs @ dq
      else if c = CHR 0x5C then bs @ bs
      else if c = CHR 0x08 then bs @ ''b''
      else if c = CHR 0x09 then bs @ ''t''
      else if c = CHR 0x0A then bs @ ''n''
      else if c = CHR 0x0C then bs @ ''f''
      else if c = CHR 0x0D then bs @ ''r''
      else if (of_char c :: nat) < 32
        then bs @ ''u00'' @ [digit_char ((of_char c :: nat) div 16), digit_char ((of_char c :: nat) mod 16)]
      else [c])"

definition json_quote :: "string \<Rightarrow> string" where
  "json_quote s = dq @ concat (map json_escape_char s) @ dq"

fun json_value :: "jsval \<Rightarrow> string" where
  "json_value (JStr s) = json_quote s"
| "json_value (JNum n) = int_to_string n"
| "json_value (JBool b) = (if b then ''true'' else ''false'')"
| "json_value JNull = ''null''"

fun join :: "string \<Rightarrow> string list \<Rightarrow> string" where
  "join sep [] = []"
| "join sep [x] = x"
| "join sep (x # y # ys) = x @ sep @ join sep (y # ys)"

text \<open>
  \<open>SerializeJSONObject\<close> over a list of keys: each key whose value is defined gives
  \<open>"key":value\<close>, the members are joined by commas inside braces.
\<close>

definition json_members :: "js_object \<Rightarrow> string list \<Rightarrow> string" where
  "json_members obj ks =
     ''{'' @ join '','' (List.map_filter
        (\<lambda>k. case map_of obj k of None \<Rightarrow> None
             | Some v \<Rightarrow> Some (json_quote k @ '':'' @ json_value v)) ks) @ ''}''"

text \<open>\<open>JSON.stringify(data)\<close>: the object's own keys, in enumeration order.\<close>

definition JSON_stringify :: "js_object \<Rightarrow> string" where
  "JSON_stringify obj = json_members obj (map fst obj)"

text \<open>
  \<open>JSON.stringify(data, keys)\<close> with an array replacer: the property list is the
  array without repetitions, and the members are written in the order of that list.
\<close>

definition JSON_stringify_keys :: "js_object \<Rightarrow> string list \<Rightarrow> string" where
  "JSON_stringify_keys obj ks = json_members obj (remdups ks)"

section \<open>Regular expressions\<close>

text \<open>
  The regular expressions of the class are sequences of single-character classes with a
  repetition count, and the assertions \<open>\b\<close>, \<open>^\<close> and \<open>$\<close>. \<open>rx_match\<close> says whether
  the sequence matches at the start of the text, given the character before it;
  \<open>rx_test\<close> is \<open>RegExp.prototype.test\<close>: a match at some position.
\<close>

datatype rx_item =
    One "char \<Rightarrow> bool"
  | Rep "char \<Rightarrow> bool" nat "nat option"
  | WordBoundary
  | LineStart
  | LineEnd

definition word_char :: "char \<Rightarrow> bool" where
  "word_char c = ((CHR ''a'' \<le> c \<and> c \<le> CHR ''z'') \<or> (CHR ''A'' \<le> c \<and> c \<le> CHR ''Z'')
     \<or> (CHR ''0'' \<le> c \<and> c \<le> CHR ''9'') \<or> c = CHR ''_'')"

definition is_word :: "char option \<Rightarrow> bool" where
  "is_word p = (case p of None \<Rightarrow> False | Some c \<Rightarrow> word_char c)"

fun rx_match :: "rx_item list \<Rightarrow> char option \<Rightarrow> string \<Rightarrow> bool" where
  "rx_match [] prev s = True"
| "rx_match (One c # r) prev s =
     (case s of [] \<Rightarrow> False | x # xs \<Rightarrow> c x \<and> rx_match r (Some x) xs)"
| "rx_match (Rep c lo hi # r) prev s =
     ((lo = 0 \<and> rx_match r prev s) \<or>
      (hi \<noteq> Some 0 \<and>
       (case s of [] \<Rightarrow> False
        | x # xs \<Rightarrow> c x \<and> rx_match (Rep c (lo - 1) (map_option (\<lambda>h. h - 1) hi) # r) (Some x) xs)))"
| "rx_match (WordBoundary # r) prev s =
     (is_word prev \<noteq> is_word (case s of [] \<Rightarrow> None | x # _ \<Rightarrow> Some x) \<and> rx_match r prev s)"
| "rx_match (LineStart # r) prev s = (prev = None \<and> rx_match r prev s)"
| "rx_match (LineEnd # r) prev s = (s = [] \<and> rx_match r prev s)"

fun rx_search :: "rx_item list \<Rightarrow> char option \<Rightarrow> string \<Rightarrow> bool" where
  "rx_search p prev [] = rx_match p prev []"
| "rx_search p prev (x # xs) = (rx_match p prev (x # xs) \<or> rx_search p (Some x) xs)"

definition rx_test :: "rx_item list \<Rightarrow> string \<Rightarrow> bool" where
  "rx_test p s = rx_search p None s"

text \<open>
  Character classes. With the flag \<open>i\<close> an ASCII letter of the pattern matches both of
  its cases and no other character.
\<close>

definition upper_ascii :: "char \<Rightarrow> char" where
  "upper_ascii c = (if CHR ''a'' \<le> c \<and> c \<le> CHR ''z'' then char_of ((of_char c :: nat) - 32) else c)"

definition ci :: "char \<Rightarrow> char \<Rightarrow> bool" where
  "ci c x = (upper_ascii x = upper_ascii c)"

definition lit_i :: "string \<Rightarrow> rx_item list" where
  "lit_i s = map (\<lambda>c. One (ci c)) s"

definition line_terminator :: "char \<Rightarrow> bool" where
  "line_terminator c = (c = CHR 0x0A \<or> c = CHR 0x0D)"

definition dot_star :: "rx_item list" where
  "dot_star = [Rep (\<lambda>x. \<not> line_terminator x) 0 None]"

definition digit :: "char \<Rightarrow> bool" where
  "digit c = (CHR ''0'' \<le> c \<and> c \<le> CHR ''9'')"

definition alpha :: "char \<Rightarrow> bool" where
  "alpha c = ((CHR ''a'' \<le> c \<and> c \<le> CHR ''z'') \<or> (CHR ''A'' \<le> c \<and> c \<le> CHR ''Z''))"

definition space_char :: "char \<Rightarrow> bool" where
  "space_char c = (c \<in> set [CHR 0x09, CHR 0x0A, CHR 0x0B, CHR 0x0C, CHR 0x0D, CHR 0x20, CHR 0xA0])"

section \<open>Field sensitivity and data classification\<close>

text \<open>
  A field descriptor. \<open>isSensitiveField\<close> reads only \<open>name\<close> and \<open>label\<close>, and
  \<open>encryptSensitiveData\<close> calls it with \<open>{ name: key }\<close>, where the label is undefined.
\<close>

record named =
  name :: string
  label :: "string option"

record field = named +
  ftype :: string
  required :: bool

definition sensitivePatterns :: "rx_item list list" where
  "sensitivePatterns =
     [lit_i ''email'', lit_i ''phone'', lit_i ''ssn'', lit_i ''social'', lit_i ''id'' @ [LineEnd],
      lit_i ''name'' @ [LineEnd], lit_i ''address'', lit_i ''dob'', lit_i ''birth'', lit_i ''medical'',
      lit_i ''salary'', lit_i ''wage'', lit_i ''income'', lit_i ''credit'', lit_i ''password'']"

definition isSensitiveField :: "'a named_scheme \<Rightarrow> bool" where
  "isSensitiveField f =
     (let fieldName = name f;
          fieldLabel = (case label f of None \<Rightarrow> [] | Some l \<Rightarrow> l)
      in list_ex (\<lambda>pattern. rx_test pattern fieldName \<or> rx_test pattern fieldLabel) sensitivePatterns)"

definition restrictedPatterns :: "rx_item list list" where
  "restrictedPatterns =
     [lit_i ''proprietary'', lit_i ''confidential'', lit_i ''trade'' @ dot_star @ lit_i ''secret'',
      lit_i ''patent'', lit_i ''intellectual'' @ dot_star @ lit_i ''property'', lit_i ''classified'']"

definition confidentialPatterns :: "rx_item list list" where
  "confidentialPatterns =
     [lit_i ''social'' @ dot_star @ lit_i ''security'', lit_i ''ssn'', lit_i ''medical'', lit_i ''health'',
      lit_i ''financial'', lit_i ''salary'', lit_i ''wage'', lit_i ''credit'', lit_i ''bank'']"

text \<open>The four shapes \<open>containsPII\<close> looks for: e-mail address, SSN, phone number, card number.\<close>

definition piiPatterns :: "rx_item list list" where
  "piiPatterns =
     [[WordBoundary,
       Rep (\<lambda>c. alpha c \<or> digit c \<or> c \<in> set ''._%+-'') 1 None,
       One (\<lambda>c. c = CHR ''@''),
       Rep (\<lambda>c. alpha c \<or> digit c \<or> c \<in> set ''.-'') 1 None,
       One (\<lambda>c. c = CHR ''.''),
       Rep (\<lambda>c. alpha c \<or> c = CHR ''|'') 2 None,
       WordBoundary],
      [WordBoundary, Rep digit 3 (Some 3), One (\<lambda>c. c = CHR ''-''), Rep digit 2 (Some 2),
       One (\<lambda>c. c = CHR ''-''), Rep digit 4 (Some 4), WordBoundary],
      [WordBoundary, Rep digit 3 (Some 3),
       Rep (\<lambda>c. c = CHR ''-'' \<or> c = CHR ''.'' \<or> space_char c) 0 (Some 1), Rep digit 3 (Some 3),
       Rep (\<lambda>c. c = CHR ''-'' \<or> c = CHR ''.'' \<or> space_char c) 0 (Some 1), Rep digit 4 (Some 4),
       WordBoundary],
      [WordBoundary, Rep digit 4 (Some 4),
       One (\<lambda>c. c = CHR ''-'' \<or> space_char c), Rep digit 4 (Some 4),
       One (\<lambda>c. c = CHR ''-'' \<or> space_char c), Rep digit 4 (Some 4),
       One (\<lambda>c. c = CHR ''-'' \<or> space_char c), Rep digit 4 (Some 4), WordBoundary]]"

definition containsPII :: "js_object \<Rightarrow> bool" where
  "containsPII data =
     (let dataString = JSON_stringify data
      in list_ex (\<lambda>pattern. rx_test pattern dataString) piiPatterns)"

definition classifyData :: "js_object \<Rightarrow> string" where
  "classifyData data =
     (let dataString = toLowerCase (JSON_stringify data)
      in if list_ex (\<lambda>pattern. rx_test pattern dataString) restrictedPatterns then ''restricted''
         else if list_ex (\<lambda>pattern. rx_test pattern dataString) confidentialPatterns then ''confidential''
         else if containsPII data then ''internal''
         else ''internal'')"

section \<open>Identifiers and column types\<close>

text \<open>
  \<open>name.replace(/[^a-zA-Z0-9_]/g, '_').replace(/^[0-9]/, '_$&').toLowerCase()\<close>:
  every character outside the class becomes an underscore, a leading digit gets an
  underscore in front of it, and the result is lower-cased.
\<close>

definition replace_invalid :: "string \<Rightarrow> string" where
  "replace_invalid s = map (\<lambda>c. if word_char c then c else CHR ''_'') s"

definition prefix_leading_digit :: "string \<Rightarrow> string" where
  "prefix_leading_digit s = (case s of [] \<Rightarrow> [] | c # cs \<Rightarrow> if digit c then CHR ''_'' # c # cs else c # cs)"

definition sanitizeColumnName :: "string \<Rightarrow> string" where
  "sanitizeColumnName nm = toLowerCase (prefix_leading_digit (replace_invalid nm))"

text \<open>The identifier grammar \<open>/^[a-zA-Z][a-zA-Z0-9_]*$/\<close> of \<open>isValidTableName\<close>.\<close>

definition identifier_rx :: "rx_item list" where
  "identifier_rx = [LineStart, One alpha, Rep word_char 0 None, LineEnd]"

definition isValidTableName :: "string \<Rightarrow> bool" where
  "isValidTableName nm = (rx_test identifier_rx nm \<and> length nm \<le> 63)"

text \<open>
  The column type of a field type: the entry of \<open>typeMap\<close>, or \<open>TEXT\<close> for a type the table
  does not list (the names \<open>Object.prototype\<close> lends to every object are left aside).
\<close>

definition typeMap :: "(string \<times> string) list" where
  "typeMap =
     [(''text'', ''TEXT''), (''email'', ''TEXT''), (''number'', ''NUMERIC''), (''date'', ''DATE''),
      (''datetime-local'', ''TIMESTAMPTZ''), (''textarea'', ''TEXT''), (''select'', ''TEXT''),
      (''radio'', ''TEXT''), (''checkbox'', ''BOOLEAN''), (''file'', ''TEXT''), (''tel'', ''TEXT''),
      (''url'', ''TEXT''), (''time'', ''TIME''), (''month'', ''TEXT''), (''week'', ''TEXT'')]"

definition mapFieldTypeToPostgreSQL :: "string \<Rightarrow> string" where
  "mapFieldTypeToPostgreSQL fieldType = (case map_of typeMap fieldType of None \<Rightarrow> ''TEXT'' | Some t \<Rightarrow> t)"

section \<open>The table schema\<close>

text \<open>
  The options \<open>generateSecureTableSchema\<close> destructures. A flag that the caller leaves
  out is undefined, which the conditions read as false; an access level that is left out
  is written into the text as \<open>undefined\<close>. \<open>createSecureTable\<close> fills in its defaults
  before it calls the generator.
\<close>

record schema_options =
  enableAuditLog :: bool
  enableEncryption :: bool
  departmentLevel :: bool
  accessLevel :: "string option"

definition createSecureTable_defaults :: schema_options where
  "createSecureTable_defaults =
     \<lparr>enableAuditLog = True, enableEncryption = True, departmentLevel = True,
      accessLevel = Some ''internal''\<rparr>"

definition sq :: string where
  "sq = [CHR 0x27]"

definition interpolate :: "string option \<Rightarrow> string" where
  "interpolate v = (case v of None \<Rightarrow> ''undefined'' | Some s \<Rightarrow> s)"

text \<open>The body of \<open>fields.forEach((field, index) => ...)\<close>: the text one field adds.\<close>

definition field_columns :: "schema_options \<Rightarrow> nat \<Rightarrow> nat \<Rightarrow> field \<Rightarrow> string" where
  "field_columns options fields_length index fld =
     (let columnName = sanitizeColumnName (name fld);
          pgType = mapFieldTypeToPostgreSQL (ftype fld);
          nullable = (if required fld then ''NOT NULL'' else [])
      in if enableEncryption options \<and> isSensitiveField fld
         then ''    '' @ dq @ columnName @ ''_encrypted'' @ dq @ '' TEXT,\<newline>'' @
              ''    '' @ dq @ columnName @ ''_hash'' @ dq @ '' TEXT,\<newline>''
         else ''    '' @ dq @ columnName @ dq @ '' '' @ pgType @ '' '' @ nullable @
              (if index < fields_length - 1 \<or> enableAuditLog options then '','' else []) @
              ''\<newline>'')"

text \<open>The \<open>createTable\<close> text of \<open>generateSecureTableSchema\<close>.\<close>

definition generateSecureTableSchema :: "string \<Rightarrow> field list \<Rightarrow> schema_options \<Rightarrow> string" where
  "generateSecureTableSchema tableName flds options =
     ''-- Create secure table: '' @ tableName @ ''\<newline>'' @
     ''CREATE TABLE IF NOT EXISTS '' @ dq @ tableName @ dq @ '' (\<newline>'' @
     ''    id BIGSERIAL PRIMARY KEY,\<newline>'' @
     ''    created_at TIMESTAMPTZ DEFAULT NOW(),\<newline>'' @
     ''    updated_at TIMESTAMPTZ DEFAULT NOW(),\<newline>'' @
     ''    created_by TEXT DEFAULT auth.email(),\<newline>'' @
     (if departmentLevel options
      then ''    department TEXT NOT NULL DEFAULT '' @ sq @ ''general'' @ sq @ '',\<newline>'' else []) @
     ''    security_classification TEXT DEFAULT '' @ sq @ interpolate (accessLevel options) @ sq @ '',\<newline>'' @
     ''    data_hash TEXT,\<newline>'' @
     (if enableAuditLog options
      then ''    audit_log JSONB DEFAULT '' @ sq @ ''[]'' @ sq @ ''::jsonb,\<newline>'' else []) @
     concat (map (\<lambda>(index, fld). field_columns options (length flds) index fld) (enumerate 0 flds)) @
     '');'' @
     ''\<newline>\<newline>-- Enable Row Level Security\<newline>'' @
     ''ALTER TABLE '' @ dq @ tableName @ dq @ '' ENABLE ROW LEVEL SECURITY;\<newline>'' @
     ''\<newline>-- Performance indexes\<newline>'' @
     ''CREATE INDEX IF NOT EXISTS idx_'' @ tableName @ ''_created_at ON '' @ dq @ tableName @ dq @ '' (created_at);\<newline>'' @
     ''CREATE INDEX IF NOT EXISTS idx_'' @ tableName @ ''_created_by ON '' @ dq @ tableName @ dq @ '' (created_by);\<newline>'' @
     (if departmentLevel options
      then ''CREATE INDEX IF NOT EXISTS idx_'' @ tableName @ ''_department ON '' @ dq @ tableName @ dq @ '' (department);\<newline>''
      else [])"

text \<open>Whether a text holds another one, as \<open>String.prototype.includes\<close> tells.\<close>

fun starts_with :: "string \<Rightarrow> string \<Rightarrow> bool" where
  "starts_with s [] = True"
| "starts_with [] (p # ps) = False"
| "starts_with (x # xs) (p # ps) = (x = p \<and> starts_with xs ps)"

fun str_includes :: "string \<Rightarrow> string \<Rightarrow> bool" where
  "str_includes [] sub = starts_with [] sub"
| "str_includes (x # xs) sub = (starts_with (x # xs) sub \<or> str_includes xs sub)"

section \<open>The connector, the browser and the endpoint\<close>

text \<open>
  What lies outside the class is a parameter of the model: the clock (read once for
  every logged event, here by the number of events the connector has logged so far),
  the browser's user agent, the SHA-256 primitive of \<open>crypto.subtle\<close> (\<open>None\<close> when it
  raises), the AES-GCM encryption of \<open>encrypt\<close> (a fresh nonce for every call, so the
  token depends on which call it is; it may be the plaintext itself, which is what
  \<open>encrypt\<close> returns when the primitive fails), and the remote endpoint's answer to a
  request.
\<close>

record log_entry =
  timestamp :: string
  event :: string
  user :: string
  ip :: string
  userAgent :: string
  details :: "(string \<times> jsval option) list"

record request =
  url :: string
  http_method :: string
  headers :: "(string \<times> string) list"
  body :: string

text \<open>
  The answers \<open>submitSecureData\<close> tells apart: \<open>fetch\<close> rejects; the response is ok and
  its JSON is an array of rows; it is ok and reading it raises (\<open>response.json()\<close> or
  \<open>result[0]\<close>); it is not ok and its JSON is an object, with or without a \<open>message\<close>; it is
  not ok and reading it raises. The texts are the \<open>error.message\<close> of what was raised.
\<close>

datatype endpoint_reply =
    FetchRejected string
  | Created "js_object list"
  | CreatedUnreadable string
  | Refused "string option"
  | RefusedUnreadable string

record env =
  clock :: "nat \<Rightarrow> string"
  navigator_userAgent :: string
  sha256 :: "string \<Rightarrow> 8 word list option"
  cipher :: "nat \<Rightarrow> string \<Rightarrow> string"
  endpoint :: "request \<Rightarrow> endpoint_reply"

record user_context =
  email :: "string option"

record security_context =
  userEmail :: "string option"
  department :: "string option"
  role :: "string option"

text \<open>
  The connector's fields, the value the browser stores under \<open>flexform_security_log\<close>
  (as the list of entries its JSON text holds; \<open>None\<close> while the key is absent), and the
  requests sent so far. The browser's storage takes every write.
\<close>

record connector =
  supabaseUrl :: string
  supabaseKey :: string
  connected :: bool
  currentUser :: "user_context option"
  auditLog :: "log_entry list"
  localStorage_log :: "log_entry list option"
  sent :: "request list"

definition getClientIP :: string where
  "getClientIP = ''client-ip-protected''"

text \<open>\<open>a || b\<close> on an optional string: undefined and the empty string give \<open>b\<close>.\<close>

definition or_else :: "string option \<Rightarrow> string \<Rightarrow> string" where
  "or_else a b = (case a of None \<Rightarrow> b | Some s \<Rightarrow> if s = [] then b else s)"

text \<open>The truthiness of an optional string: defined and not empty.\<close>

definition present :: "string option \<Rightarrow> bool" where
  "present a = (case a of None \<Rightarrow> False | Some s \<Rightarrow> s \<noteq> [])"

definition log_entry_of :: "env \<Rightarrow> string \<Rightarrow> (string \<times> jsval option) list \<Rightarrow> connector \<Rightarrow> log_entry" where
  "log_entry_of e ev det st =
     \<lparr>timestamp = clock e (length (auditLog st)),
      event = ev,
      user = or_else (case currentUser st of None \<Rightarrow> None | Some u \<Rightarrow> email u) ''anonymous'',
      ip = getClientIP,
      userAgent = take 100 (navigator_userAgent e),
      details = det\<rparr>"

text \<open>
  What \<open>JSON.parse\<close> reads back from the \<open>JSON.stringify\<close> of an entry: the details whose
  value is undefined are left out.
\<close>

definition json_roundtrip :: "log_entry \<Rightarrow> log_entry" where
  "json_roundtrip en = en\<lparr>details := filter (\<lambda>(k, v). v \<noteq> None) (details en)\<rparr>"

definition logSecurityEvent :: "env \<Rightarrow> string \<Rightarrow> (string \<times> jsval option) list \<Rightarrow> connector \<Rightarrow> connector" where
  "logSecurityEvent e ev det st =
     (let logEntry = log_entry_of e ev det st;
          existingLogs = (case localStorage_log st of None \<Rightarrow> [] | Some l \<Rightarrow> l) @ [logEntry];
          kept = (if length existingLogs > 1000
                  then drop (length existingLogs - 1000) existingLogs else existingLogs)
      in st\<lparr>auditLog := auditLog st @ [logEntry], localStorage_log := Some (map json_roundtrip kept)\<rparr>)"

section \<open>Digests and encryption of fields\<close>

text \<open>
  \<open>hash\<close>: the SHA-256 of the text followed by \<open>salt-\<close> and the endpoint's URL, each byte
  as two hexadecimal digits; the text itself when the primitive raises.
\<close>

definition hex_byte :: "8 word \<Rightarrow> string" where
  "hex_byte b = (let h = nat_to_string 16 (unat b) in replicate (2 - length h) CHR ''0'' @ h)"

definition hash :: "env \<Rightarrow> string \<Rightarrow> string \<Rightarrow> string" where
  "hash e supabase_url data =
     (case sha256 e (data @ ''salt-'' @ supabase_url) of
        None \<Rightarrow> data
      | Some hashArray \<Rightarrow> concat (map hex_byte hashArray))"

definition generateDataHash :: "env \<Rightarrow> string \<Rightarrow> js_object \<Rightarrow> string" where
  "generateDataHash e supabase_url data =
     (let dataString = JSON_stringify_keys data (sort (map fst data))
      in hash e supabase_url dataString)"

text \<open>
  The loop of \<open>encryptSensitiveData\<close> over \<open>Object.entries(data)\<close>, with the object built
  so far. \<open>encrypt\<close> and \<open>hash\<close> catch what their primitives raise and \<open>toString\<close> is
  defined on every value of a record, so the loop's own \<open>catch\<close> is never entered.
\<close>

fun encrypt_entries :: "env \<Rightarrow> string \<Rightarrow> nat \<Rightarrow> js_object \<Rightarrow> js_object \<Rightarrow> js_object" where
  "encrypt_entries e supabase_url i [] encryptedData = encryptedData"
| "encrypt_entries e supabase_url i ((key, val) # rest) encryptedData =
     (if isSensitiveField \<lparr>name = key, label = None\<rparr> \<and> truthy val
      then encrypt_entries e supabase_url (Suc i) rest
             (obj_set
                (obj_set encryptedData (key @ ''_encrypted'') (JStr (cipher e i (toString val))))
                (key @ ''_hash'') (JStr (hash e supabase_url (toString val))))
      else encrypt_entries e supabase_url (Suc i) rest (obj_set encryptedData key val))"

definition encryptSensitiveData :: "env \<Rightarrow> string \<Rightarrow> js_object \<Rightarrow> js_object" where
  "encryptSensitiveData e supabase_url data = encrypt_entries e supabase_url 0 data []"

section \<open>Validation and submission\<close>

record validation =
  isValid :: bool
  errors :: "string list"
  warnings :: "string list"

definition trim :: "string \<Rightarrow> string" where
  "trim s = rev (dropWhile space_char (rev (dropWhile space_char s)))"

definition validateSubmission ::
  "env \<Rightarrow> js_object \<Rightarrow> string \<Rightarrow> security_context \<Rightarrow> connector \<Rightarrow> validation \<times> connector" where
  "validateSubmission e formData tableName securityContext st =
     (let v0 = \<lparr>isValid = True, errors = [], warnings = []\<rparr>;
          v1 = (if \<not> present (userEmail securityContext)
                then v0\<lparr>isValid := False, errors := errors v0 @ [''User authentication required'']\<rparr>
                else v0);
          classification = classifyData formData;
          v2 = (if classification = ''restricted'' \<and> role securityContext \<noteq> Some ''admin''
                then v1\<lparr>isValid := False,
                        errors := errors v1 @ [''Restricted data requires admin permissions'']\<rparr>
                else v1);
          v3 = v2\<lparr>warnings := warnings v2 @
                  map (\<lambda>(key, val). ''Empty field: '' @ key)
                    (filter (\<lambda>(key, val). \<not> truthy val \<or> trim (toString val) = []) formData)\<rparr>
      in (v3, logSecurityEvent e ''VALIDATION_ATTEMPT''
                [(''tableName'', Some (JStr tableName)),
                 (''classification'', Some (JStr classification)),
                 (''isValid'', Some (JBool (isValid v3))),
                 (''errorCount'', Some (JNum (int (length (errors v3))))),
                 (''warningCount'', Some (JNum (int (length (warnings v3)))))] st))"

text \<open>
  The record \<open>submitSecureData\<close> sends: the form data with the security metadata, its
  sensitive fields encrypted, and then the digest of the form data under \<open>data_hash\<close>.
\<close>

definition secure_record :: "env \<Rightarrow> string \<Rightarrow> js_object \<Rightarrow> security_context \<Rightarrow> js_object" where
  "secure_record e supabase_url formData securityContext =
     (let secureData =
            obj_set (obj_set (obj_set formData
              ''department'' (JStr (or_else (department securityContext) ''general'')))
              ''security_classification'' (JStr (classifyData formData)))
              ''created_by'' (JStr (or_else (userEmail securityContext) ''anonymous''));
          encryptedData = encryptSensitiveData e supabase_url secureData
      in obj_set encryptedData ''data_hash'' (JStr (generateDataHash e supabase_url formData)))"

definition submit_request :: "connector \<Rightarrow> string \<Rightarrow> security_context \<Rightarrow> js_object \<Rightarrow> request" where
  "submit_request st tableName securityContext encryptedData =
     \<lparr>url = supabaseUrl st @ ''/rest/v1/'' @ tableName,
      http_method = ''POST'',
      headers =
        [(''apikey'', supabaseKey st),
         (''Authorization'', ''Bearer '' @ supabaseKey st),
         (''Content-Type'', ''application/json''),
         (''Prefer'', ''return=representation''),
         (''X-User-Email'', or_else (userEmail securityContext) []),
         (''X-Department'', or_else (department securityContext) []),
         (''X-Client-IP'', getClientIP)],
      body = JSON_stringify encryptedData\<rparr>"

datatype submit_result =
    Success "js_object option" "jsval option"
  | Failure string

text \<open>
  The \<open>try\<close> block of \<open>submitSecureData\<close>: \<open>Inl\<close> is the message of the error it throws,
  \<open>Inr\<close> the result it returns.
\<close>

definition submit_try ::
  "env \<Rightarrow> string \<Rightarrow> js_object \<Rightarrow> security_context \<Rightarrow> connector \<Rightarrow> (string + submit_result) \<times> connector" where
  "submit_try e tableName formData securityContext st =
     (if \<not> connected st then (Inl ''Not connected to database. Please connect first.'', st)
      else
        let (validation, st1) = validateSubmission e formData tableName securityContext st
        in if \<not> isValid validation
           then (Inl (''Validation failed: '' @ join '', '' (errors validation)), st1)
           else
             let encryptedData = secure_record e (supabaseUrl st1) formData securityContext;
                 req = submit_request st1 tableName securityContext encryptedData;
                 st2 = st1\<lparr>sent := sent st1 @ [req]\<rparr>
             in case endpoint e req of
                  FetchRejected msg \<Rightarrow> (Inl msg, st2)
                | CreatedUnreadable msg \<Rightarrow> (Inl msg, st2)
                | RefusedUnreadable msg \<Rightarrow> (Inl msg, st2)
                | Refused msg \<Rightarrow> (Inl (or_else msg ''Failed to submit secure data''), st2)
                | Created result \<Rightarrow>
                    let first = (case result of [] \<Rightarrow> None | r # _ \<Rightarrow> Some r);
                        recordId = (case first of None \<Rightarrow> None | Some r \<Rightarrow> map_of r ''id'')
                    in (Inr (Success first recordId),
                        logSecurityEvent e ''DATA_SUBMITTED''
                          [(''tableName'', Some (JStr tableName)),
                           (''recordId'', recordId),
                           (''classification'', map_of encryptedData ''security_classification''),
                           (''fieldCount'', Some (JNum (int (length formData))))] st2))"

definition submitSecureData ::
  "env \<Rightarrow> string \<Rightarrow> js_object \<Rightarrow> security_context \<Rightarrow> connector \<Rightarrow> submit_result \<times> connector" where
  "submitSecureData e tableName formData securityContext st =
     (case submit_try e tableName formData securityContext st of
        (Inr res, st') \<Rightarrow> (res, st')
      | (Inl msg, st') \<Rightarrow>
          (Failure msg,
           logSecurityEvent e ''DATA_SUBMISSION_FAILED''
             [(''tableName'', Some (JStr tableName)),
              (''error'', Some (JStr msg)),
              (''fieldCount'', Some (JNum (int (length formData))))] st'))"

section \<open>Sample inputs\<close>

text \<open>
  A concrete environment and a connected connector, for the instances at which the
  theorems below are applied. The digest is a stand-in that depends on its input; the
  endpoint accepts every request and returns one row.
\<close>

definition demo_env :: env where
  "demo_env =
     \<lparr>clock = (\<lambda>n. ''2024-01-01T00:00:00.000Z''),
      navigator_userAgent = ''Mozilla/5.0'',
      sha256 = (\<lambda>s. Some [word_of_nat (length s)]),
      cipher = (\<lambda>i s. nat_to_string 10 i @ '':'' @ rev s),
      endpoint = (\<lambda>r. Created [[(''id'', JNum 1)]])\<rparr>"

definition demo_connector :: connector where
  "demo_connector =
     \<lparr>supabaseUrl = ''https://demo.supabase.co'',
      supabaseKey = ''key-0123456789abcdefghij'',
      connected = True,
      currentUser = Some \<lparr>email = Some ''admin@company.com''\<rparr>,
      auditLog = [],
      localStorage_log = None,
      sent = []\<rparr>"

definition demo_entry :: log_entry where
  "demo_entry = log_entry_of demo_env ''CONNECTION_SUCCESS'' [] demo_connector"

text \<open>The characters a sanitized column name is made of: \<open>[a-z0-9_]\<close>.\<close>

definition lower_word_char :: "char \<Rightarrow> bool" where
  "lower_word_char c =
     ((CHR ''a'' \<le> c \<and> c \<le> CHR ''z'') \<or> (CHR ''0'' \<le> c \<and> c \<le> CHR ''9'') \<or> c = CHR ''_'')"

section \<open>Objects and JSON\<close>

lemma map_of_obj_set: "map_of (obj_set ob k v) = (map_of ob)(k \<mapsto> v)"
  by (induction ob k v rule: obj_set.induct) auto

lemma keys_obj_set: "fst ` set (obj_set ob k v) = insert k (fst ` set ob)"
  by (induction ob k v rule: obj_set.induct) auto

lemma json_members_cong: "map_of a = map_of b \<Longrightarrow> json_members a ks = json_members b ks"
  by (simp add: json_members_def)

lemma sorted_keys_unique:
  assumes "distinct (map fst R1)" "distinct (map fst R2)" "set R1 = set R2"
  shows "sort (map fst R1) = sort (map fst R2)"
proof -
  have "set (map fst R1) = set (map fst R2)" using assms(3) by simp
  then show ?thesis
    using assms(1,2) by (intro sorted_distinct_set_unique) simp_all
qed

text \<open>
  C1. Two records with the same key-value pairs, whatever the order of their keys, have
  the same integrity digest: \<open>generateDataHash\<close> serializes the record under its sorted
  keys, and neither the sorted key list nor the value found under a key depends on the
  order.
\<close>

theorem generateDataHash_order_independent:
  assumes "distinct (map fst R1)" "distinct (map fst R2)" "set R1 = set R2"
  shows "generateDataHash e u R1 = generateDataHash e u R2"
proof -
  have m: "map_of R1 = map_of R2"
    using assms by (simp add: map_of_inject_set)
  have k: "sort (map fst R1) = sort (map fst R2)"
    using assms by (rule sorted_keys_unique)
  show ?thesis
    unfolding generateDataHash_def JSON_stringify_keys_def Let_def
    by (simp add: k json_members_cong [OF m])
qed

theorem generateDataHash_order_independent_witness:
  "distinct (map fst [(''a'', JStr ''x''), (''b'', JNum 1)]) \<and>
   distinct (map fst [(''b'', JNum 1), (''a'', JStr ''x'')]) \<and>
   set [(''a'', JStr ''x''), (''b'', JNum 1)] = set [(''b'', JNum 1), (''a'', JStr ''x'')] \<and>
   [(''a'', JStr ''x''), (''b'', JNum 1)] \<noteq> [(''b'', JNum 1), (''a'', JStr ''x'')] \<and>
   generateDataHash demo_env ''https://demo.supabase.co'' [(''a'', JStr ''x''), (''b'', JNum 1)] =
   generateDataHash demo_env ''https://demo.supabase.co'' [(''b'', JNum 1), (''a'', JStr ''x'')]"
proof -
  have d1: "distinct (map fst [(''a'', JStr ''x''), (''b'', JNum 1)])" by simp
  have d2: "distinct (map fst [(''b'', JNum 1), (''a'', JStr ''x'')])" by simp
  have s: "set [(''a'', JStr ''x''), (''b'', JNum 1)] = set [(''b'', JNum 1), (''a'', JStr ''x'')]"
    by auto
  have n: "[(''a'', JStr ''x''), (''b'', JNum 1)] \<noteq> [(''b'', JNum 1), (''a'', JStr ''x'')]" by simp
  from generateDataHash_order_independent [OF d1 d2 s, of demo_env "''https://demo.supabase.co''"]
  show ?thesis using d1 d2 s n by blast
qed

section \<open>Classification\<close>

lemma classify_confidential_salary:
  "classifyData [(''note'', JStr ''confidential salary data'')] = ''restricted''"
  by code_simp

lemma classify_patent:
  "classifyData [(''note'', JStr ''patent pending trade secret'')] = ''restricted''"
  by code_simp

lemma classify_hello_world:
  "classifyData [(''note'', JStr ''hello world'')] = ''internal''"
  by code_simp

text \<open>
  C2, as the spec states it, fails on its first example: the text
  \<open>confidential salary data\<close> matches \<open>/confidential/i\<close>, which is one of the restricted
  patterns, and these are tried first; the result is \<open>restricted\<close>, not \<open>confidential\<close>.
\<close>

theorem classifyData_confidential_salary_counterexample:
  "classifyData [(''note'', JStr ''confidential salary data'')] \<noteq> ''confidential''"
  by (simp add: classify_confidential_salary)

text \<open>
  C2, amended: \<open>classifyData\<close> gives \<open>restricted\<close> for
  \<open>{note: "confidential salary data"}\<close> and for \<open>{note: "patent pending trade secret"}\<close>,
  and \<open>internal\<close> for \<open>{note: "hello world"}\<close>.
\<close>

theorem classifyData_examples:
  "classifyData [(''note'', JStr ''confidential salary data'')] = ''restricted'' \<and>
   classifyData [(''note'', JStr ''patent pending trade secret'')] = ''restricted'' \<and>
   classifyData [(''note'', JStr ''hello world'')] = ''internal''"
  by (simp only: classify_confidential_salary classify_patent classify_hello_world)

section \<open>The generated table\<close>

text \<open>
  C3. For the table \<open>orders\<close> with the one required text field \<open>ssn\<close> and encryption
  enabled, the \<open>CREATE TABLE\<close> text holds no column \<open>"ssn"\<close>; it holds the columns
  \<open>"ssn_encrypted"\<close> and \<open>"ssn_hash"\<close>. This is so when the generator is called with the
  options \<open>{enableEncryption: true}\<close> alone, and when \<open>createSecureTable\<close> has filled in
  its defaults.
\<close>

theorem ssn_column_is_encrypted:
  "(let text = generateSecureTableSchema ''orders''
       [\<lparr>name = ''ssn'', label = None, ftype = ''text'', required = True\<rparr>]
       \<lparr>enableAuditLog = False, enableEncryption = True, departmentLevel = False, accessLevel = None\<rparr>
    in \<not> str_includes text (dq @ ''ssn'' @ dq) \<and>
       str_includes text (''    '' @ dq @ ''ssn_encrypted'' @ dq @ '' TEXT,\<newline>'') \<and>
       str_includes text (''    '' @ dq @ ''ssn_hash'' @ dq @ '' TEXT,\<newline>'')) \<and>
   (let text = generateSecureTableSchema ''orders''
       [\<lparr>name = ''ssn'', label = None, ftype = ''text'', required = True\<rparr>]
       createSecureTable_defaults
    in \<not> str_includes text (dq @ ''ssn'' @ dq) \<and>
       str_includes text (''    '' @ dq @ ''ssn_encrypted'' @ dq @ '' TEXT,\<newline>'') \<and>
       str_includes text (''    '' @ dq @ ''ssn_hash'' @ dq @ '' TEXT,\<newline>''))"
  by code_simp

section \<open>Column names\<close>

lemma rx_star_end: "rx_match [Rep c 0 None, LineEnd] prev s = list_all c s"
  by (induction s arbitrary: prev) auto

lemma rx_search_start: "prev \<noteq> None \<Longrightarrow> rx_search (LineStart # r) prev s = False"
  by (induction s arbitrary: prev) auto

lemma rx_test_anchored: "rx_test (LineStart # r) s = rx_match r None s"
  by (cases s) (auto simp: rx_test_def rx_search_start)

lemma rx_one:
  "rx_match (One c # r) prev s = (s \<noteq> [] \<and> c (hd s) \<and> rx_match r (Some (hd s)) (tl s))"
  by (cases s) simp_all

lemma identifier_iff:
  "rx_test identifier_rx s = (s \<noteq> [] \<and> alpha (hd s) \<and> list_all word_char (tl s))"
  unfolding identifier_rx_def rx_test_anchored rx_one rx_star_end ..

lemma leading_digit_iff: "rx_test [LineStart, One digit] s = (s \<noteq> [] \<and> digit (hd s))"
  unfolding rx_test_anchored rx_one by simp

lemma of_char_bounds:
  "(CHR ''a'' \<le> c) = (97 \<le> (of_char c :: nat))" "(c \<le> CHR ''z'') = ((of_char c :: nat) \<le> 122)"
  "(CHR ''A'' \<le> c) = (65 \<le> (of_char c :: nat))" "(c \<le> CHR ''Z'') = ((of_char c :: nat) \<le> 90)"
  "(CHR ''0'' \<le> c) = (48 \<le> (of_char c :: nat))" "(c \<le> CHR ''9'') = ((of_char c :: nat) \<le> 57)"
  by (simp_all add: less_eq_char_def)

lemma lower_word: "word_char c \<Longrightarrow> lower_word_char (lower_char c)"
  by (auto simp: word_char_def lower_word_char_def lower_char_def Let_def of_char_bounds)

lemma lower_alpha: "alpha c \<Longrightarrow> alpha (lower_char c)"
  by (auto simp: alpha_def lower_char_def Let_def of_char_bounds)

lemma lower_digit: "digit (lower_char c) = digit c"
  by (auto simp: digit_def lower_char_def Let_def of_char_bounds)

lemma lower_underscore: "lower_char CHR ''_'' = CHR ''_''"
  by (simp add: lower_char_def)

lemma lower_word_is_word: "lower_word_char c \<Longrightarrow> word_char c"
  by (auto simp: word_char_def lower_word_char_def)

lemma replace_invalid_word: "list_all word_char (replace_invalid s)"
  by (induction s) (auto simp: replace_invalid_def word_char_def)

lemma alpha_word: "alpha c \<Longrightarrow> word_char c"
  by (auto simp: alpha_def word_char_def)

lemma digit_not_alpha: "digit c \<Longrightarrow> \<not> alpha c"
  by (auto simp: alpha_def digit_def of_char_bounds)

lemma underscore_facts: "\<not> alpha CHR ''_''" "\<not> digit CHR ''_''" "word_char CHR ''_''"
  by (simp_all add: alpha_def digit_def word_char_def)

lemma alpha_lower_back: "word_char c \<Longrightarrow> alpha (lower_char c) \<Longrightarrow> alpha c"
  by (auto simp: alpha_def word_char_def lower_char_def Let_def of_char_bounds split: if_splits)

lemma sanitize_cons:
  "sanitizeColumnName (c # cs) =
     (let c' = (if word_char c then c else CHR ''_'')
      in (if digit c' then [CHR ''_''] else []) @ lower_char c' # map lower_char (replace_invalid cs))"
  by (simp add: sanitizeColumnName_def toLowerCase_def prefix_leading_digit_def replace_invalid_def
        Let_def lower_underscore)

lemma lower_tail: "list_all lower_word_char (map lower_char (replace_invalid cs))"
  using replace_invalid_word [of cs] by (simp add: list_all_iff lower_word)

text \<open>
  C9, as the spec states it, fails: a name that begins with a digit is given a leading
  underscore, and the identifier grammar \<open>[a-zA-Z][a-zA-Z0-9_]*\<close> wants a leading letter.
\<close>

theorem sanitizeColumnName_grammar_counterexample:
  "sanitizeColumnName ''1abc'' = ''_1abc'' \<and> \<not> rx_test identifier_rx (sanitizeColumnName ''1abc'')"
  by code_simp

text \<open>
  C9, amended: for every input, the output of \<open>sanitizeColumnName\<close> is made of lower-case
  letters, digits and underscores and does not begin with a digit; it is empty exactly
  when the input is; and it matches the identifier grammar exactly when the input begins
  with an ASCII letter.
\<close>

theorem sanitizeColumnName_shape:
  "list_all lower_word_char (sanitizeColumnName nm) \<and>
   \<not> rx_test [LineStart, One digit] (sanitizeColumnName nm) \<and>
   (sanitizeColumnName nm = []) = (nm = []) \<and>
   rx_test identifier_rx (sanitizeColumnName nm) = (nm \<noteq> [] \<and> alpha (hd nm))"
proof (cases nm)
  case Nil
  then show ?thesis
    by (simp add: sanitizeColumnName_def toLowerCase_def prefix_leading_digit_def replace_invalid_def
          identifier_iff leading_digit_iff)
next
  case (Cons c cs)
  define c' where "c' = (if word_char c then c else CHR ''_'')"
  have w: "word_char c'" by (simp add: c'_def underscore_facts)
  have a: "alpha c' = alpha c"
    by (auto simp: c'_def underscore_facts alpha_word)
  have out: "sanitizeColumnName nm =
      (if digit c' then [CHR ''_''] else []) @ lower_char c' # map lower_char (replace_invalid cs)"
    by (simp add: Cons sanitize_cons c'_def)
  have lt: "list_all lower_word_char (map lower_char (replace_invalid cs))" by (rule lower_tail)
  have wt: "list_all word_char (map lower_char (replace_invalid cs))"
    using lt by (simp add: list_all_iff lower_word_is_word)
  have lc: "lower_word_char (lower_char c')" using w by (rule lower_word)
  have us: "lower_word_char CHR ''_''" by (simp add: lower_word_char_def)
  show ?thesis
  proof (cases "digit c'")
    case True
    then have na: "\<not> alpha c'" by (rule digit_not_alpha)
    from True na a lt lc us show ?thesis
      unfolding out by (simp add: Cons identifier_iff leading_digit_iff underscore_facts)
  next
    case False
    have al: "alpha (lower_char c') = alpha c'"
      using w lower_alpha alpha_lower_back by blast
    from False a al lt wt lc show ?thesis
      unfolding out by (simp add: Cons identifier_iff leading_digit_iff lower_digit)
  qed
qed

section \<open>The audit log\<close>

lemma log_fields [simp]:
  "auditLog (logSecurityEvent e ev det st) = auditLog st @ [log_entry_of e ev det st]"
  "sent (logSecurityEvent e ev det st) = sent st"
  "connected (logSecurityEvent e ev det st) = connected st"
  "supabaseUrl (logSecurityEvent e ev det st) = supabaseUrl st"
  "supabaseKey (logSecurityEvent e ev det st) = supabaseKey st"
  by (simp_all add: logSecurityEvent_def Let_def)

lemma log_entry_event [simp]: "event (log_entry_of e ev det st) = ev"
  by (simp add: log_entry_of_def)

text \<open>
  C7. After \<open>logSecurityEvent\<close>, whatever was stored before, the stored log holds at most
  1000 entries: the entries stored before followed by the new one, in that order and as
  JSON keeps them, without as many of the oldest as go beyond 1000. When 1000 entries
  were stored, the oldest one is dropped and the other 999 are followed by the new entry.
\<close>

theorem logSecurityEvent_capacity:
  assumes "existing = (case localStorage_log st of None \<Rightarrow> [] | Some l \<Rightarrow> l)"
  shows "\<exists>kept. localStorage_log (logSecurityEvent e ev det st) = Some kept \<and>
           length kept \<le> 1000 \<and>
           kept = map json_roundtrip
                    (drop (length existing + 1 - 1000) (existing @ [log_entry_of e ev det st])) \<and>
           (length existing = 1000 \<longrightarrow>
              kept = map json_roundtrip (tl existing @ [log_entry_of e ev det st]))"
  using assms by (auto simp add: logSecurityEvent_def Let_def drop_Suc)

theorem logSecurityEvent_capacity_witness:
  "\<exists>kept. localStorage_log (logSecurityEvent demo_env ''DISCONNECTED'' []
              (demo_connector\<lparr>localStorage_log := Some (replicate 1000 demo_entry)\<rparr>)) = Some kept \<and>
          length kept \<le> 1000 \<and>
          kept = map json_roundtrip (tl (replicate 1000 demo_entry) @
                 [log_entry_of demo_env ''DISCONNECTED'' []
                    (demo_connector\<lparr>localStorage_log := Some (replicate 1000 demo_entry)\<rparr>)])"
  using logSecurityEvent_capacity [of "replicate 1000 demo_entry"
          "demo_connector\<lparr>localStorage_log := Some (replicate 1000 demo_entry)\<rparr>"
          demo_env "''DISCONNECTED''" "[]"]
  by simp

section \<open>Validation and submission\<close>

lemma validate_state:
  "\<exists>det. snd (validateSubmission e R tbl ctx st) = logSecurityEvent e ''VALIDATION_ATTEMPT'' det st"
  unfolding validateSubmission_def Let_def by (intro exI) (rule snd_conv)

lemma validate_isValid:
  "isValid (fst (validateSubmission e R tbl ctx st)) =
     (present (userEmail ctx) \<and> \<not> (classifyData R = ''restricted'' \<and> role ctx \<noteq> Some ''admin''))"
  by (simp add: validateSubmission_def Let_def)

lemma validate_errors:
  "errors (fst (validateSubmission e R tbl ctx st)) =
     (if present (userEmail ctx) then [] else [''User authentication required'']) @
     (if classifyData R = ''restricted'' \<and> role ctx \<noteq> Some ''admin''
      then [''Restricted data requires admin permissions''] else [])"
  by (simp add: validateSubmission_def Let_def)

lemma submit_disconnected:
  "\<not> connected st \<Longrightarrow>
   submitSecureData e tbl R ctx st =
     (Failure ''Not connected to database. Please connect first.'',
      logSecurityEvent e ''DATA_SUBMISSION_FAILED''
        [(''tableName'', Some (JStr tbl)),
         (''error'', Some (JStr ''Not connected to database. Please connect first.'')),
         (''fieldCount'', Some (JNum (int (length R))))] st)"
  by (simp add: submitSecureData_def submit_try_def)

lemma submit_invalid:
  assumes "connected st" "\<not> isValid (fst (validateSubmission e R tbl ctx st))"
  shows "\<exists>msg det. submitSecureData e tbl R ctx st =
     (Failure msg, logSecurityEvent e ''DATA_SUBMISSION_FAILED'' det (snd (validateSubmission e R tbl ctx st)))"
  using assms
  by (cases "validateSubmission e R tbl ctx st") (simp add: submitSecureData_def submit_try_def, blast)

lemma submit_valid:
  assumes "connected st" "isValid (fst (validateSubmission e R tbl ctx st))"
  shows "\<exists>res ev det. submitSecureData e tbl R ctx st =
     (res, logSecurityEvent e ev det
        ((snd (validateSubmission e R tbl ctx st))
           \<lparr>sent := sent st @ [submit_request st tbl ctx (secure_record e (supabaseUrl st) R ctx)]\<rparr>))
     \<and> ev = (case res of Success d i \<Rightarrow> ''DATA_SUBMITTED'' | Failure m \<Rightarrow> ''DATA_SUBMISSION_FAILED'')"
proof -
  obtain det where d: "snd (validateSubmission e R tbl ctx st) = logSecurityEvent e ''VALIDATION_ATTEMPT'' det st"
    using validate_state by blast
  obtain v st1 where vs: "validateSubmission e R tbl ctx st = (v, st1)" by (cases "validateSubmission e R tbl ctx st")
  with d have st1: "st1 = logSecurityEvent e ''VALIDATION_ATTEMPT'' det st" by simp
  from assms(2) vs have v: "isValid v" by simp
  show ?thesis
    using assms(1) v
    by (cases "endpoint e (submit_request st1 tbl ctx (secure_record e (supabaseUrl st1) R ctx))")
       (simp_all add: submitSecureData_def submit_try_def vs Let_def st1 submit_request_def, blast+)
qed

lemma submit_sent:
  "sent (snd (submitSecureData e tbl R ctx st)) =
     (if connected st \<and> isValid (fst (validateSubmission e R tbl ctx st))
      then sent st @ [submit_request st tbl ctx (secure_record e (supabaseUrl st) R ctx)]
      else sent st)"
proof -
  obtain det where d: "snd (validateSubmission e R tbl ctx st) = logSecurityEvent e ''VALIDATION_ATTEMPT'' det st"
    using validate_state by blast
  consider "\<not> connected st" | "connected st" "\<not> isValid (fst (validateSubmission e R tbl ctx st))"
    | "connected st" "isValid (fst (validateSubmission e R tbl ctx st))" by blast
  then show ?thesis
  proof cases
    case 1 then show ?thesis by (simp add: submit_disconnected)
  next
    case 2
    from submit_invalid [OF 2] obtain msg det' where
      "submitSecureData e tbl R ctx st =
        (Failure msg, logSecurityEvent e ''DATA_SUBMISSION_FAILED'' det' (snd (validateSubmission e R tbl ctx st)))"
      by blast
    with 2 d show ?thesis by simp
  next
    case 3
    from submit_valid [OF 3] obtain res ev det' where
      "submitSecureData e tbl R ctx st =
     (res, logSecurityEvent e ev det'
        ((snd (validateSubmission e R tbl ctx st))
           \<lparr>sent := sent st @ [submit_request st tbl ctx (secure_record e (supabaseUrl st) R ctx)]\<rparr>))"
      by blast
    with 3 show ?thesis by simp
  qed
qed

lemma submit_failure:
  "\<not> (connected st \<and> isValid (fst (validateSubmission e R tbl ctx st))) \<Longrightarrow>
     \<exists>msg. fst (submitSecureData e tbl R ctx st) = Failure msg"
  by (cases "validateSubmission e R tbl ctx st") (auto simp add: submitSecureData_def submit_try_def Let_def)

text \<open>
  C6. When the security context has no \<open>userEmail\<close>, or an empty one, validation fails
  with the error \<open>User authentication required\<close>, whatever the record holds, and
  \<open>submitSecureData\<close> returns a failure and sends no request.
\<close>

theorem missing_userEmail_fails:
  assumes "userEmail ctx = None \<or> userEmail ctx = Some []"
  shows "\<not> isValid (fst (validateSubmission e R tbl ctx st)) \<and>
         ''User authentication required'' \<in> set (errors (fst (validateSubmission e R tbl ctx st))) \<and>
         (\<exists>msg. fst (submitSecureData e tbl R ctx st) = Failure msg) \<and>
         sent (snd (submitSecureData e tbl R ctx st)) = sent st"
proof -
  from assms have p: "\<not> present (userEmail ctx)" by (auto simp: present_def)
  then have nv: "\<not> isValid (fst (validateSubmission e R tbl ctx st))"
    by (simp add: validate_isValid)
  from p have er: "''User authentication required'' \<in> set (errors (fst (validateSubmission e R tbl ctx st)))"
    by (simp add: validate_errors)
  from nv have f: "\<exists>msg. fst (submitSecureData e tbl R ctx st) = Failure msg"
    by (intro submit_failure) simp
  from nv have s: "sent (snd (submitSecureData e tbl R ctx st)) = sent st"
    by (simp add: submit_sent)
  from nv er f s show ?thesis by blast
qed

theorem missing_userEmail_fails_witness:
  "\<not> isValid (fst (validateSubmission demo_env [(''note'', JStr ''hello world'')] ''orders''
        \<lparr>userEmail = None, department = Some ''general'', role = Some ''admin''\<rparr> demo_connector)) \<and>
   (\<exists>msg. fst (submitSecureData demo_env ''orders'' [(''note'', JStr ''hello world'')]
        \<lparr>userEmail = Some [], department = Some ''general'', role = Some ''admin''\<rparr> demo_connector) = Failure msg) \<and>
   sent (snd (submitSecureData demo_env ''orders'' [(''note'', JStr ''hello world'')]
        \<lparr>userEmail = Some [], department = Some ''general'', role = Some ''admin''\<rparr> demo_connector)) =
     sent demo_connector"
  using missing_userEmail_fails [of "\<lparr>userEmail = None, department = Some ''general'', role = Some ''admin''\<rparr>"
          demo_env "[(''note'', JStr ''hello world'')]" "''orders''" demo_connector]
        missing_userEmail_fails [of "\<lparr>userEmail = Some [], department = Some ''general'', role = Some ''admin''\<rparr>"
          demo_env "[(''note'', JStr ''hello world'')]" "''orders''" demo_connector]
  by simp

text \<open>
  C5. For a record that \<open>classifyData\<close> classifies as restricted: with a role other than
  \<open>admin\<close> validation fails with \<open>Restricted data requires admin permissions\<close>, and the
  submission fails and sends nothing. With the role \<open>admin\<close> that check passes, so that
  validation succeeds exactly when the user is authenticated; on a connected connector
  the submission of an authenticated admin goes on to the transformation and sends the
  transformed record.
\<close>

theorem restricted_requires_admin:
  assumes "classifyData R = ''restricted''"
  shows "(role ctx \<noteq> Some ''admin'' \<longrightarrow>
            \<not> isValid (fst (validateSubmission e R tbl ctx st)) \<and>
            ''Restricted data requires admin permissions'' \<in> set (errors (fst (validateSubmission e R tbl ctx st))) \<and>
            (\<exists>msg. fst (submitSecureData e tbl R ctx st) = Failure msg) \<and>
            sent (snd (submitSecureData e tbl R ctx st)) = sent st) \<and>
         (role ctx = Some ''admin'' \<longrightarrow>
            ''Restricted data requires admin permissions'' \<notin> set (errors (fst (validateSubmission e R tbl ctx st))) \<and>
            isValid (fst (validateSubmission e R tbl ctx st)) = present (userEmail ctx) \<and>
            (connected st \<and> present (userEmail ctx) \<longrightarrow>
               sent (snd (submitSecureData e tbl R ctx st)) =
                 sent st @ [submit_request st tbl ctx (secure_record e (supabaseUrl st) R ctx)]))"
proof (intro conjI impI)
  assume r: "role ctx \<noteq> Some ''admin''"
  with assms show nv: "\<not> isValid (fst (validateSubmission e R tbl ctx st))"
    by (simp add: validate_isValid)
  from r assms show "''Restricted data requires admin permissions'' \<in> set (errors (fst (validateSubmission e R tbl ctx st)))"
    by (simp add: validate_errors)
  from nv show "\<exists>msg. fst (submitSecureData e tbl R ctx st) = Failure msg"
    by (intro submit_failure) simp
  from nv show "sent (snd (submitSecureData e tbl R ctx st)) = sent st"
    by (simp add: submit_sent)
next
  assume r: "role ctx = Some ''admin''"
  then show "''Restricted data requires admin permissions'' \<notin> set (errors (fst (validateSubmission e R tbl ctx st)))"
    by (simp add: validate_errors)
  from r show "isValid (fst (validateSubmission e R tbl ctx st)) = present (userEmail ctx)"
    by (simp add: validate_isValid)
next
  assume "role ctx = Some ''admin''" "connected st \<and> present (userEmail ctx)"
  then show "sent (snd (submitSecureData e tbl R ctx st)) =
                 sent st @ [submit_request st tbl ctx (secure_record e (supabaseUrl st) R ctx)]"
    by (simp add: submit_sent validate_isValid)
qed

theorem restricted_requires_admin_witness:
  "classifyData [(''note'', JStr ''patent pending trade secret'')] = ''restricted'' \<and>
   \<not> isValid (fst (validateSubmission demo_env [(''note'', JStr ''patent pending trade secret'')] ''orders''
        \<lparr>userEmail = Some ''user@company.com'', department = Some ''general'', role = Some ''user''\<rparr>
        demo_connector)) \<and>
   isValid (fst (validateSubmission demo_env [(''note'', JStr ''patent pending trade secret'')] ''orders''
        \<lparr>userEmail = Some ''admin@company.com'', department = Some ''general'', role = Some ''admin''\<rparr>
        demo_connector)) \<and>
   sent (snd (submitSecureData demo_env ''orders'' [(''note'', JStr ''patent pending trade secret'')]
        \<lparr>userEmail = Some ''admin@company.com'', department = Some ''general'', role = Some ''admin''\<rparr>
        demo_connector)) =
     sent demo_connector @
       [submit_request demo_connector ''orders''
          \<lparr>userEmail = Some ''admin@company.com'', department = Some ''general'', role = Some ''admin''\<rparr>
          (secure_record demo_env (supabaseUrl demo_connector) [(''note'', JStr ''patent pending trade secret'')]
             \<lparr>userEmail = Some ''admin@company.com'', department = Some ''general'', role = Some ''admin''\<rparr>)]"
  using restricted_requires_admin [OF classify_patent,
          of "\<lparr>userEmail = Some ''user@company.com'', department = Some ''general'', role = Some ''user''\<rparr>"
             demo_env "''orders''" demo_connector]
        restricted_requires_admin [OF classify_patent,
          of "\<lparr>userEmail = Some ''admin@company.com'', department = Some ''general'', role = Some ''admin''\<rparr>"
             demo_env "''orders''" demo_connector]
  by (simp add: classify_patent present_def demo_connector_def)

lemma starts_with_append: "starts_with (sub @ ys) sub"
  by (induction sub) simp_all

lemma starts_with_includes: "starts_with s sub \<Longrightarrow> str_includes s sub"
  by (cases s) simp_all

lemma str_includes_append: "str_includes (xs @ sub @ ys) sub"
  by (induction xs) (simp_all add: starts_with_includes starts_with_append)

lemma map_filter_member: "x \<in> set xs \<Longrightarrow> f x = Some y \<Longrightarrow> y \<in> set (List.map_filter f xs)"
  by (induction xs) (auto split: option.splits)

lemma join_split: "m \<in> set ms \<Longrightarrow> \<exists>a b. join sep ms = a @ m @ b"
proof (induction sep ms rule: join.induct)
  case (1 sep)
  then show ?case by simp
next
  case (2 sep x)
  then have "join sep [x] = [] @ m @ []" by simp
  then show ?case by blast
next
  case (3 sep x y ys)
  show ?case
  proof (cases "m = x")
    case True
    then have "join sep (x # y # ys) = [] @ m @ (sep @ join sep (y # ys))" by simp
    then show ?thesis by blast
  next
    case False
    with 3 obtain a b where "join sep (y # ys) = a @ m @ b" by auto
    then have "join sep (x # y # ys) = (x @ sep @ a) @ m @ b" by simp
    then show ?thesis by blast
  qed
qed

lemma json_has_member:
  assumes "map_of ob k = Some v"
  shows "str_includes (JSON_stringify ob) (json_quote k @ '':'' @ json_value v)"
proof -
  let ?f = "\<lambda>k. case map_of ob k of None \<Rightarrow> None
             | Some v \<Rightarrow> Some (json_quote k @ '':'' @ json_value v)"
  from assms have "k \<in> set (map fst ob)"
    by (metis map_of_eq_None_iff option.distinct(1) set_map)
  moreover have "?f k = Some (json_quote k @ '':'' @ json_value v)" using assms by simp
  ultimately have "json_quote k @ '':'' @ json_value v \<in> set (List.map_filter ?f (map fst ob))"
    by (rule map_filter_member)
  from join_split [OF this, of "'',''"] obtain a b where
    "join '','' (List.map_filter ?f (map fst ob)) = a @ (json_quote k @ '':'' @ json_value v) @ b"
    by blast
  then have "JSON_stringify ob = (''{'' @ a) @ (json_quote k @ '':'' @ json_value v) @ (b @ ''}'')"
    by (simp add: JSON_stringify_def json_members_def)
  then show ?thesis by (simp only: str_includes_append)
qed

lemma secure_record_data_hash:
  "map_of (secure_record e u R ctx) ''data_hash'' = Some (JStr (generateDataHash e u R))"
  by (simp add: secure_record_def Let_def map_of_obj_set)

text \<open>
  C4. A submission on a connected connector that passes validation sends exactly one
  request, and no other submission sends any. The body of that request is the JSON text
  of the transformed record, and this record carries under \<open>data_hash\<close> the digest of the
  form data as the caller gave them, taken before the metadata is attached and before
  any field is encrypted; the body holds the member \<open>"data_hash":"<digest>"\<close>.
\<close>

theorem data_hash_of_original_record:
  "(let rec = secure_record e (supabaseUrl st) R ctx;
        req = submit_request st tbl ctx rec
    in sent (snd (submitSecureData e tbl R ctx st)) =
         (if connected st \<and> isValid (fst (validateSubmission e R tbl ctx st))
          then sent st @ [req] else sent st) \<and>
       body req = JSON_stringify rec \<and>
       map_of rec ''data_hash'' = Some (JStr (generateDataHash e (supabaseUrl st) R)) \<and>
       str_includes (body req)
         (json_quote ''data_hash'' @ '':'' @ json_quote (generateDataHash e (supabaseUrl st) R)))"
proof -
  have b: "body (submit_request st tbl ctx (secure_record e (supabaseUrl st) R ctx)) =
           JSON_stringify (secure_record e (supabaseUrl st) R ctx)"
    by (simp add: submit_request_def)
  have i: "str_includes (JSON_stringify (secure_record e (supabaseUrl st) R ctx))
             (json_quote ''data_hash'' @ '':'' @ json_quote (generateDataHash e (supabaseUrl st) R))"
    using json_has_member [OF secure_record_data_hash, of e "supabaseUrl st" R ctx] by simp
  show ?thesis
    unfolding Let_def b
    using submit_sent [of e tbl R ctx st] secure_record_data_hash [of e "supabaseUrl st" R ctx] i
    by blast
qed

theorem data_hash_of_original_record_witness:
  "sent (snd (submitSecureData demo_env ''orders'' [(''note'', JStr ''hello world'')]
       \<lparr>userEmail = Some ''user@company.com'', department = None, role = Some ''user''\<rparr> demo_connector)) =
     sent demo_connector @
       [submit_request demo_connector ''orders''
          \<lparr>userEmail = Some ''user@company.com'', department = None, role = Some ''user''\<rparr>
          (secure_record demo_env (supabaseUrl demo_connector) [(''note'', JStr ''hello world'')]
             \<lparr>userEmail = Some ''user@company.com'', department = None, role = Some ''user''\<rparr>)] \<and>
   map_of (secure_record demo_env (supabaseUrl demo_connector) [(''note'', JStr ''hello world'')]
             \<lparr>userEmail = Some ''user@company.com'', department = None, role = Some ''user''\<rparr>) ''data_hash'' =
     Some (JStr (generateDataHash demo_env (supabaseUrl demo_connector) [(''note'', JStr ''hello world'')]))"
proof -
  have c: "connected demo_connector" by (simp add: demo_connector_def)
  have v: "isValid (fst (validateSubmission demo_env [(''note'', JStr ''hello world'')] ''orders''
       \<lparr>userEmail = Some ''user@company.com'', department = None, role = Some ''user''\<rparr> demo_connector))"
    by (simp add: validate_isValid classify_hello_world present_def)
  from data_hash_of_original_record [of demo_env demo_connector "[(''note'', JStr ''hello world'')]"
         "\<lparr>userEmail = Some ''user@company.com'', department = None, role = Some ''user''\<rparr>" "''orders''"]
  show ?thesis unfolding Let_def using c v by simp
qed

text \<open>
  C8, as the spec states it, fails: on a connected connector \<open>validateSubmission\<close> logs
  its own \<open>VALIDATION_ATTEMPT\<close> entry before the entry of the outcome, so a submission that
  fails validation, and one that succeeds, each leave two entries in the audit log.
\<close>

theorem one_audit_entry_counterexample:
  "map event (auditLog (snd (submitSecureData demo_env ''orders'' [(''note'', JStr ''hello world'')]
        \<lparr>userEmail = None, department = None, role = None\<rparr> demo_connector))) =
     [''VALIDATION_ATTEMPT'', ''DATA_SUBMISSION_FAILED''] \<and>
   map event (auditLog (snd (submitSecureData demo_env ''orders'' [(''note'', JStr ''hello world'')]
        \<lparr>userEmail = Some ''user@company.com'', department = None, role = None\<rparr> demo_connector))) =
     [''VALIDATION_ATTEMPT'', ''DATA_SUBMITTED''] \<and>
   auditLog demo_connector = []"
  by (simp add: submitSecureData_def submit_try_def validateSubmission_def Let_def demo_connector_def
        demo_env_def present_def classify_hello_world)

text \<open>
  C8, amended: every submission appends, last, exactly one entry for its outcome,
  \<open>DATA_SUBMITTED\<close> when it returns success and \<open>DATA_SUBMISSION_FAILED\<close> when it returns
  failure. On a connected connector a \<open>VALIDATION_ATTEMPT\<close> entry comes just before it, so
  that the submission appends two entries; on a connector that is not connected it
  appends the one.
\<close>

theorem submit_audit_entries:
  "\<exists>terminal.
     event terminal = (case fst (submitSecureData e tbl R ctx st) of
                         Success d i \<Rightarrow> ''DATA_SUBMITTED'' | Failure m \<Rightarrow> ''DATA_SUBMISSION_FAILED'') \<and>
     (if connected st
      then \<exists>attempt. event attempt = ''VALIDATION_ATTEMPT'' \<and>
             auditLog (snd (submitSecureData e tbl R ctx st)) = auditLog st @ [attempt, terminal]
      else auditLog (snd (submitSecureData e tbl R ctx st)) = auditLog st @ [terminal])"
proof -
  obtain det where d: "snd (validateSubmission e R tbl ctx st) = logSecurityEvent e ''VALIDATION_ATTEMPT'' det st"
    using validate_state by blast
  consider "\<not> connected st" | "connected st" "\<not> isValid (fst (validateSubmission e R tbl ctx st))"
    | "connected st" "isValid (fst (validateSubmission e R tbl ctx st))" by blast
  then show ?thesis
  proof cases
    case 1 then show ?thesis by (simp add: submit_disconnected)
  next
    case 2
    from submit_invalid [OF 2] obtain msg det' where
      "submitSecureData e tbl R ctx st =
        (Failure msg, logSecurityEvent e ''DATA_SUBMISSION_FAILED'' det' (snd (validateSubmission e R tbl ctx st)))"
      by blast
    with 2 d show ?thesis by simp
  next
    case 3
    from submit_valid [OF 3] obtain res ev det' where
      "submitSecureData e tbl R ctx st =
     (res, logSecurityEvent e ev det'
        ((snd (validateSubmission e R tbl ctx st))
           \<lparr>sent := sent st @ [submit_request st tbl ctx (secure_record e (supabaseUrl st) R ctx)]\<rparr>))"
     and "ev = (case res of Success d i \<Rightarrow> ''DATA_SUBMITTED'' | Failure m \<Rightarrow> ''DATA_SUBMISSION_FAILED'')"
      by blast
    with 3 d show ?thesis by (simp add: logSecurityEvent_def Let_def)
  qed
qed

section \<open>Encryption of sensitive fields\<close>

lemma encrypt_entries_untouched:
  assumes "\<forall>(k', v') \<in> set data.
             (if isSensitiveField \<lparr>name = k', label = None\<rparr> \<and> truthy v'
              then k' @ ''_encrypted'' \<noteq> k \<and> k' @ ''_hash'' \<noteq> k else k' \<noteq> k)"
  shows "map_of (encrypt_entries e u i data acc) k = map_of acc k"
  using assms
  by (induction data arbitrary: i acc) (auto simp: map_of_obj_set)

lemma encrypt_entries_keys:
  assumes "K \<in> fst ` set (encrypt_entries e u i data acc)"
  shows "K \<in> fst ` set acc \<or> K \<in> fst ` set data \<or>
         (\<exists>(k', v') \<in> set data. isSensitiveField \<lparr>name = k', label = None\<rparr> \<and> truthy v' \<and>
             (K = k' @ ''_encrypted'' \<or> K = k' @ ''_hash''))"
  using assms
proof (induction data arbitrary: i acc)
  case Nil
  then show ?case by simp
next
  case (Cons p rest)
  obtain k1 v1 where p: "p = (k1, v1)" by (cases p)
  show ?case
  proof (cases "isSensitiveField \<lparr>name = k1, label = None\<rparr> \<and> truthy v1")
    case True
    with Cons.prems p have
      "K \<in> fst ` set (encrypt_entries e u (Suc i) rest
         (obj_set (obj_set acc (k1 @ ''_encrypted'') (JStr (cipher e i (toString v1))))
                (k1 @ ''_hash'') (JStr (hash e u (toString v1)))))" by simp
    from Cons.IH [OF this] show ?thesis
      using True p by (auto simp: keys_obj_set)
  next
    case False
    with Cons.prems p have
      "K \<in> fst ` set (encrypt_entries e u (Suc i) rest (obj_set acc k1 v1))" by auto
    from Cons.IH [OF this] show ?thesis
      using False p by (auto simp: keys_obj_set)
  qed
qed

lemma suffix_clash: "k' @ ''_hash'' \<noteq> k @ ''_encrypted''"
proof
  assume "k' @ ''_hash'' = k @ ''_encrypted''"
  then have "last (k' @ ''_hash'') = last (k @ ''_encrypted'')" by simp
  then show False by simp
qed

lemma derived_key_origin:
  assumes "distinct (map fst data)" "(k, v) \<in> set data" "\<not> truthy v"
    and "K = k @ ''_encrypted'' \<or> K = k @ ''_hash''"
    and "K \<in> fst ` set (encryptSensitiveData e u data)"
  shows "K \<in> fst ` set data"
proof (rule ccontr)
  assume n: "K \<notin> fst ` set data"
  from assms(5) encrypt_entries_keys [of K e u 0 data "[]"] n
  obtain k' v' where kv: "(k', v') \<in> set data"
    and s: "isSensitiveField \<lparr>name = k', label = None\<rparr> \<and> truthy v'"
    and w: "K = k' @ ''_encrypted'' \<or> K = k' @ ''_hash''"
    by (auto simp: encryptSensitiveData_def)
  from w assms(4) have "k' = k"
    using suffix_clash [of k' k] suffix_clash [of k k'] by auto
  with kv assms(1,2) have "v' = v" by (meson eq_key_imp_eq_value)
  with s assms(3) show False by simp
qed

lemma sensitive_ssn: "isSensitiveField \<lparr>name = ''ssn'', label = None\<rparr>"
  by code_simp

lemma sensitive_ssn_hash: "isSensitiveField \<lparr>name = ''ssn_hash'', label = None\<rparr>"
  by code_simp

text \<open>
  C10, as stated for every sensitive field with a falsy value, fails when another field
  of the record writes the same key: \<open>ssn_hash\<close> is a sensitive name, its value \<open>0\<close> is
  copied, and the field \<open>ssn\<close> that follows stores the hash of its own value under
  \<open>ssn_hash\<close>.
\<close>

theorem falsy_sensitive_field_counterexample:
  "isSensitiveField \<lparr>name = ''ssn_hash'', label = None\<rparr> \<and> \<not> truthy (JNum 0) \<and>
   distinct (map fst [(''ssn_hash'', JNum 0), (''ssn'', JStr ''123-45-6789'')]) \<and>
   map_of (encryptSensitiveData demo_env ''https://demo.supabase.co''
             [(''ssn_hash'', JNum 0), (''ssn'', JStr ''123-45-6789'')]) ''ssn_hash'' =
     Some (JStr (hash demo_env ''https://demo.supabase.co'' ''123-45-6789'')) \<and>
   map_of (encryptSensitiveData demo_env ''https://demo.supabase.co''
             [(''ssn_hash'', JNum 0), (''ssn'', JStr ''123-45-6789'')]) ''ssn_hash'' \<noteq> Some (JNum 0)"
  by (simp add: encryptSensitiveData_def sensitive_ssn sensitive_ssn_hash map_of_obj_set)

lemma encrypt_entries_append:
  "encrypt_entries e u i (xs @ ys) acc =
     encrypt_entries e u (i + length xs) ys (encrypt_entries e u i xs acc)"
  by (induction xs arbitrary: i acc) auto

lemma encrypt_entries_copy:
  assumes "k \<notin> fst ` set post" "\<not> truthy v"
    and "\<forall>(k', v') \<in> set post. isSensitiveField \<lparr>name = k', label = None\<rparr> \<and> truthy v'
            \<longrightarrow> k' @ ''_encrypted'' \<noteq> k \<and> k' @ ''_hash'' \<noteq> k"
  shows "map_of (encrypt_entries e u i ((k, v) # post) acc) k = Some v"
proof -
  have un: "\<forall>(k', v') \<in> set post.
             (if isSensitiveField \<lparr>name = k', label = None\<rparr> \<and> truthy v'
              then k' @ ''_encrypted'' \<noteq> k \<and> k' @ ''_hash'' \<noteq> k else k' \<noteq> k)"
    using assms(1,3) by (auto simp: rev_image_eqI)
  show ?thesis
    using assms(2) by (simp add: encrypt_entries_untouched [OF un] map_of_obj_set)
qed

text \<open>
  C10, amended: a field with a sensitive name and a falsy value is copied under its own
  key with its value unchanged, provided no later sensitive field of the record with a
  truthy value writes that key as its \<open>_encrypted\<close> or \<open>_hash\<close> entry; and the result has an
  entry \<open><field>_encrypted\<close> or \<open><field>_hash\<close> only if the record itself has a field of
  that name.
\<close>

theorem falsy_sensitive_field_passes_through:
  assumes "distinct (map fst data)" "data = pre @ (k, v) # post"
    and "isSensitiveField \<lparr>name = k, label = None\<rparr>" "\<not> truthy v"
    and "\<forall>(k', v') \<in> set post. isSensitiveField \<lparr>name = k', label = None\<rparr> \<and> truthy v'
            \<longrightarrow> k' @ ''_encrypted'' \<noteq> k \<and> k' @ ''_hash'' \<noteq> k"
  shows "map_of (encryptSensitiveData e u data) k = Some v \<and>
         (k @ ''_encrypted'' \<in> fst ` set (encryptSensitiveData e u data)
            \<longrightarrow> k @ ''_encrypted'' \<in> fst ` set data) \<and>
         (k @ ''_hash'' \<in> fst ` set (encryptSensitiveData e u data)
            \<longrightarrow> k @ ''_hash'' \<in> fst ` set data)"
proof (intro conjI impI)
  have "k \<notin> fst ` set post" using assms(1,2) by auto
  then show "map_of (encryptSensitiveData e u data) k = Some v"
    unfolding encryptSensitiveData_def assms(2) encrypt_entries_append
    using assms(4,5) by (rule encrypt_entries_copy)
next
  have m: "(k, v) \<in> set data" using assms(2) by simp
  assume a: "k @ ''_encrypted'' \<in> fst ` set (encryptSensitiveData e u data)"
  show "k @ ''_encrypted'' \<in> fst ` set data"
    by (rule derived_key_origin [OF assms(1) m assms(4) _ a]) simp
next
  have m: "(k, v) \<in> set data" using assms(2) by simp
  assume a: "k @ ''_hash'' \<in> fst ` set (encryptSensitiveData e u data)"
  show "k @ ''_hash'' \<in> fst ` set data"
    by (rule derived_key_origin [OF assms(1) m assms(4) _ a]) simp
qed

theorem falsy_sensitive_field_passes_through_witness:
  "map_of (encryptSensitiveData demo_env ''https://demo.supabase.co''
             [(''ssn'', JStr ''123-45-6789''), (''ssn_hash'', JNum 0)]) ''ssn_hash'' = Some (JNum 0) \<and>
   ''ssn_hash_encrypted'' \<notin> fst ` set (encryptSensitiveData demo_env ''https://demo.supabase.co''
             [(''ssn'', JStr ''123-45-6789''), (''ssn_hash'', JNum 0)]) \<and>
   ''ssn_hash_hash'' \<notin> fst ` set (encryptSensitiveData demo_env ''https://demo.supabase.co''
             [(''ssn'', JStr ''123-45-6789''), (''ssn_hash'', JNum 0)])"
proof -
  have d: "distinct (map fst [(''ssn'', JStr ''123-45-6789''), (''ssn_hash'', JNum 0)])" by simp
  have s: "[(''ssn'', JStr ''123-45-6789''), (''ssn_hash'', JNum 0)] =
           [(''ssn'', JStr ''123-45-6789'')] @ (''ssn_hash'', JNum 0) # []" by simp
  have f: "\<not> truthy (JNum 0)" by simp
  have n: "\<forall>(k', v') \<in> set []. isSensitiveField \<lparr>name = k', label = None\<rparr> \<and> truthy v'
            \<longrightarrow> k' @ ''_encrypted'' \<noteq> ''ssn_hash'' \<and> k' @ ''_hash'' \<noteq> ''ssn_hash''" by simp
  have k1: "''ssn_hash_encrypted'' \<notin> fst ` set [(''ssn'', JStr ''123-45-6789''), (''ssn_hash'', JNum 0)]"
    by simp
  have k2: "''ssn_hash_hash'' \<notin> fst ` set [(''ssn'', JStr ''123-45-6789''), (''ssn_hash'', JNum 0)]"
    by simp
  have a1: "''ssn_hash'' @ ''_encrypted'' = ''ssn_hash_encrypted''" by simp
  have a2: "''ssn_hash'' @ ''_hash'' = ''ssn_hash_hash''" by simp
  from falsy_sensitive_field_passes_through [OF d s sensitive_ssn_hash f n,
          of demo_env "''https://demo.supabase.co''"]
  show ?thesis unfolding a1 a2 using k1 k2 by blast
qed

end
